theory Spec2Isabelle
  imports Main "HOL-Library.Word"
begin

section \<open>Values, exceptions and the binary layout of \<open>struct\<close>\<close>

text \<open>
  The gateway (\<open>server.py\<close>) and the consumer (\<open>daqSocketManager.py\<close>) talk over a TCP
  socket in frames. Bytes are 8-bit words, a Python \<open>str\<close> is its list of code points
  (so \<open>len\<close> is \<open>length\<close>), a Python \<open>int\<close> is an \<open>int\<close>. A sample is a C \<open>double\<close>;
  \<open>struct.pack('<d', x)\<close> copies its eight bytes, so a sample is modelled as its IEEE-754
  bit pattern, a 64-bit word, and no floating-point arithmetic is involved.
\<close>

type_synonym byte = "8 word"
type_synonym codepoint = nat
type_synonym sample = "64 word"

datatype exn =
    TimeoutError
  | ConnectionResetError
  | BrokenPipeError
  | StructError
  | UnicodeEncodeError
  | UnicodeDecodeError
  | JSONDecodeError
  | TypeError
  | AttributeError
  | IndexError
  | ULError

text \<open>
  Python values as far as the protocol carries them: what \<open>send_msg\<close> is given, what
  \<open>get_msg\<close> returns and what \<open>json.loads\<close> builds. \<open>json.dumps\<close> and
  \<open>json.loads\<close> themselves are library code and stay parameters of the codec
  (\<open>dumps\<close>, \<open>loads\<close>).
\<close>

datatype pyval =
    PNone
  | PBool bool
  | PInt int
  | PStr "codepoint list"
  | PBytes "byte list"
  | PList "pyval list"
  | PDict "(pyval \<times> pyval) list"

text \<open>\<open>len(x)\<close> and the truth value of \<open>x\<close>.\<close>

fun py_len :: "pyval \<Rightarrow> exn + int" where
  "py_len (PStr s) = Inr (int (length s))"
| "py_len (PBytes b) = Inr (int (length b))"
| "py_len (PList l) = Inr (int (length l))"
| "py_len (PDict d) = Inr (int (length d))"
| "py_len _ = Inl TypeError"

fun truthy :: "pyval \<Rightarrow> bool" where
  "truthy PNone = False"
| "truthy (PBool b) = b"
| "truthy (PInt v) = (v \<noteq> 0)"
| "truthy (PStr s) = (s \<noteq> [])"
| "truthy (PBytes b) = (b \<noteq> [])"
| "truthy (PList l) = (l \<noteq> [])"
| "truthy (PDict d) = (d \<noteq> [])"

text \<open>\<open>struct.pack('<I', v)\<close>: four bytes, least significant first; \<open>struct.error\<close>
  outside \<open>0 .. 2^32 - 1\<close>.\<close>

definition pack_I :: "int \<Rightarrow> exn + byte list" where
  "pack_I v =
     (if 0 \<le> v \<and> v < 2 ^ 32
      then Inr [word_of_int v, word_of_int (v div 256),
                word_of_int (v div 65536), word_of_int (v div 16777216)]
      else Inl StructError)"

text \<open>\<open>struct.unpack('<I', b)\<close>: \<open>struct.error\<close> unless \<open>b\<close> has exactly four bytes.\<close>

fun unpack_I :: "byte list \<Rightarrow> exn + int" where
  "unpack_I [b0, b1, b2, b3] =
     Inr (uint b0 + 256 * uint b1 + 65536 * uint b2 + 16777216 * uint b3)"
| "unpack_I _ = Inl StructError"

text \<open>\<open>struct.pack('<d', x)\<close> and its inverse on one sample.\<close>

definition pack_d :: "sample \<Rightarrow> byte list" where
  "pack_d w = map (\<lambda>k. ucast (drop_bit (8 * k) w)) [0..<8]"

definition unpack_d :: "byte list \<Rightarrow> sample" where
  "unpack_d bs = foldr (\<lambda>b acc. push_bit 8 acc + ucast b) bs 0"

text \<open>\<open>struct.pack('<' + 'd' * len(l), *l)\<close>.\<close>

definition pack_doubles :: "sample list \<Rightarrow> byte list" where
  "pack_doubles l = concat (map pack_d l)"

text \<open>\<open>struct.unpack('<' + 'd' * l, b)\<close> with \<open>l = len(b) // 8\<close>: \<open>struct.error\<close>
  unless \<open>b\<close> has exactly \<open>8 * l\<close> bytes.\<close>

fun chunks8 :: "nat \<Rightarrow> byte list \<Rightarrow> byte list list" where
  "chunks8 0 bs = []"
| "chunks8 (Suc l) bs = take 8 bs # chunks8 l (drop 8 bs)"

definition unpack_doubles :: "byte list \<Rightarrow> exn + sample list" where
  "unpack_doubles bs =
     (let l = length bs div 8
      in if length bs = 8 * l then Inr (map unpack_d (chunks8 l bs)) else Inl StructError)"

section \<open>UTF-8\<close>

text \<open>\<open>str.encode('utf-8')\<close>: a lone surrogate raises \<open>UnicodeEncodeError\<close>. A Python
  \<open>str\<close> holds no code point above \<open>0x10FFFF\<close>; the model raises there too.\<close>

definition encode_cp :: "codepoint \<Rightarrow> exn + byte list" where
  "encode_cp c =
     (if c < 0x80 then Inr [of_nat c]
      else if c < 0x800 then Inr [of_nat (0xC0 + c div 64), of_nat (0x80 + c mod 64)]
      else if 0xD800 \<le> c \<and> c \<le> 0xDFFF then Inl UnicodeEncodeError
      else if c < 0x10000
        then Inr [of_nat (0xE0 + c div 4096), of_nat (0x80 + c div 64 mod 64),
                  of_nat (0x80 + c mod 64)]
      else if c < 0x110000
        then Inr [of_nat (0xF0 + c div 262144), of_nat (0x80 + c div 4096 mod 64),
                  of_nat (0x80 + c div 64 mod 64), of_nat (0x80 + c mod 64)]
      else Inl UnicodeEncodeError)"

fun encode_utf8 :: "codepoint list \<Rightarrow> exn + byte list" where
  "encode_utf8 [] = Inr []"
| "encode_utf8 (c # cs) =
     (case encode_cp c of
        Inl e \<Rightarrow> Inl e
      | Inr bs \<Rightarrow> (case encode_utf8 cs of Inl e \<Rightarrow> Inl e | Inr rest \<Rightarrow> Inr (bs @ rest)))"

text \<open>\<open>bytes.decode('utf-8')\<close>, strict: a bad lead byte, a missing or bad continuation
  byte, an overlong form, a surrogate or a value above \<open>0x10FFFF\<close> raise
  \<open>UnicodeDecodeError\<close>.\<close>

definition continuation_count :: "nat \<Rightarrow> nat option" where
  "continuation_count n =
     (if n < 0x80 then Some 0
      else if 0xC0 \<le> n \<and> n < 0xE0 then Some 1
      else if 0xE0 \<le> n \<and> n < 0xF0 then Some 2
      else if 0xF0 \<le> n \<and> n < 0xF8 then Some 3
      else None)"

definition lead_bits :: "nat \<Rightarrow> nat \<Rightarrow> nat" where
  "lead_bits k n = (if k = 0 then n else if k = 1 then n - 0xC0 else if k = 2 then n - 0xE0 else n - 0xF0)"

definition is_continuation :: "byte \<Rightarrow> bool" where
  "is_continuation b = (0x80 \<le> unat b \<and> unat b < 0xC0)"

definition well_formed_cp :: "nat \<Rightarrow> codepoint \<Rightarrow> bool" where
  "well_formed_cp k c =
     (if k = 0 then True
      else if k = 1 then 0x80 \<le> c
      else if k = 2 then 0x800 \<le> c \<and> \<not> (0xD800 \<le> c \<and> c \<le> 0xDFFF)
      else 0x10000 \<le> c \<and> c < 0x110000)"

fun decode_utf8 :: "byte list \<Rightarrow> exn + codepoint list" where
  "decode_utf8 [] = Inr []"
| "decode_utf8 (b # bs) =
     (case continuation_count (unat b) of
        None \<Rightarrow> Inl UnicodeDecodeError
      | Some k \<Rightarrow>
          (if length bs < k \<or> \<not> list_all is_continuation (take k bs) then Inl UnicodeDecodeError
           else
             (let c = foldl (\<lambda>acc x. acc * 64 + (unat x - 0x80)) (lead_bits k (unat b)) (take k bs)
              in if \<not> well_formed_cp k c then Inl UnicodeDecodeError
                 else (case decode_utf8 (drop k bs) of
                         Inl e \<Rightarrow> Inl e
                       | Inr cs \<Rightarrow> Inr (c # cs)))))"

text \<open>\<open>str.lower()\<close>. Only its effect on ASCII letters is modelled: the command words
  the dispatcher compares with are ASCII, and no string with a code point outside ASCII
  lowers to one of them.\<close>

definition lower_cp :: "codepoint \<Rightarrow> codepoint" where
  "lower_cp c = (if 0x41 \<le> c \<and> c \<le> 0x5A then c + 0x20 else c)"

definition lower :: "codepoint list \<Rightarrow> codepoint list" where
  "lower s = map lower_cp s"

text \<open>A string literal of the source as code points.\<close>

definition str :: "string \<Rightarrow> codepoint list" where
  "str s = map of_char s"

section \<open>The socket\<close>

text \<open>
  A connection as one thread sees it. \<open>inbuf\<close> is what the peer has sent and this side
  has not read yet, in the pieces in which it arrives: one \<open>recv\<close> returns bytes of the
  first piece only, at most as many as asked for, which is how a stream socket may answer.
  When nothing is pending, \<open>at_end\<close> says what the read finds: the peer has closed
  (\<open>recv\<close> returns \<open>b''\<close>), the read timeout expires, or the connection is reset.
  \<open>sent\<close> collects what this side has written; \<open>send_fault\<close> is the exception a
  write meets, if any.
\<close>

datatype end_kind = Closed | TimedOut | Reset

record conn =
  inbuf :: "byte list list"
  at_end :: end_kind
  sent :: "byte list"
  send_fault :: "exn option"
  is_closed :: bool

text \<open>Operations return a result or an exception, and the connection as they leave it.\<close>

type_synonym 'a outcome = "(exn + 'a) \<times> conn"

definition then_do :: "'a outcome \<Rightarrow> ('a \<Rightarrow> conn \<Rightarrow> 'b outcome) \<Rightarrow> 'b outcome" where
  "then_do r f = (case r of (Inl e, c) \<Rightarrow> (Inl e, c) | (Inr a, c) \<Rightarrow> f a c)"

definition lift :: "exn + 'a \<Rightarrow> conn \<Rightarrow> 'a outcome" where
  "lift r c = (r, c)"

definition recv :: "nat \<Rightarrow> conn \<Rightarrow> (byte list) outcome" where
  "recv n c =
     (if n = 0 then (Inr [], c)
      else
        (case dropWhile (\<lambda>piece. piece = []) (inbuf c) of
           [] \<Rightarrow>
             (case at_end c of
                Closed \<Rightarrow> (Inr [], c\<lparr>inbuf := []\<rparr>)
              | TimedOut \<Rightarrow> (Inl TimeoutError, c\<lparr>inbuf := []\<rparr>)
              | Reset \<Rightarrow> (Inl ConnectionResetError, c\<lparr>inbuf := []\<rparr>))
         | piece # rest \<Rightarrow> (Inr (take n piece), c\<lparr>inbuf := drop n piece # rest\<rparr>)))"

definition sendall :: "byte list \<Rightarrow> conn \<Rightarrow> unit outcome" where
  "sendall bs c =
     (case send_fault c of
        Some e \<Rightarrow> (Inl e, c)
      | None \<Rightarrow> (Inr (), c\<lparr>sent := sent c @ bs\<rparr>))"

definition close :: "conn \<Rightarrow> conn" where
  "close c = c\<lparr>is_closed := True\<rparr>"

section \<open>The frame codec: \<open>send_msg\<close> and \<open>get_msg\<close>\<close>

text \<open>
  \<open>send_msg(conn, itm)\<close> of \<open>server.py\<close>; \<open>DaqSocketManager.send_msg\<close> is the same
  code on \<open>self.socket\<close>. The length written before a string is \<open>len(itm)\<close>, the number
  of code points; the bytes written after it are \<open>itm.encode('utf-8')\<close>.
\<close>

definition send_msg :: "(pyval \<Rightarrow> exn + codepoint list) \<Rightarrow> pyval \<Rightarrow> conn \<Rightarrow> int outcome" where
  "send_msg dumps itm conn =
     (case itm of
        PStr s \<Rightarrow>
          then_do (lift (pack_I (int (length s))) conn) (\<lambda>packed_data c.
          then_do (sendall packed_data c) (\<lambda>_ c.
          then_do (lift (encode_utf8 s) c) (\<lambda>encoded c.
          then_do (sendall encoded c) (\<lambda>_ c. (Inr 0, c)))))
      | PInt v \<Rightarrow>
          then_do (lift (pack_I v) conn) (\<lambda>packed_data c.
          then_do (sendall packed_data c) (\<lambda>_ c. (Inr 0, c)))
      | PList l \<Rightarrow>
          then_do (lift (dumps (PList l)) conn) (\<lambda>json_string c.
          then_do (lift (pack_I (int (length json_string))) c) (\<lambda>packed_data c.
          then_do (sendall packed_data c) (\<lambda>_ c.
          then_do (lift (encode_utf8 json_string) c) (\<lambda>encoded c.
          then_do (sendall encoded c) (\<lambda>_ c. (Inr 0, c))))))
      | _ \<Rightarrow> (Inr (- 1), conn))"

text \<open>
  \<open>get_msg(conn, typ)\<close> of \<open>server.py\<close>; \<open>DaqSocketManager.get_msg\<close> is the same code
  on \<open>self.socket\<close>. Each of the length and the payload is read with one \<open>recv\<close>.
  For \<open>'str'\<close> the bytes are returned as they were read; the callers decode them.
\<close>

definition get_msg :: "(codepoint list \<Rightarrow> exn + pyval) \<Rightarrow> string \<Rightarrow> conn \<Rightarrow> pyval outcome" where
  "get_msg loads typ conn =
     then_do (recv 4 conn) (\<lambda>recv_str c.
     then_do (lift (unpack_I recv_str) c) (\<lambda>msg c.
       if typ = ''int'' then (Inr (PInt msg), c)
       else if typ = ''list'' then
         then_do (recv (nat msg) c) (\<lambda>s c.
         then_do (lift (decode_utf8 s) c) (\<lambda>text c.
         then_do (lift (loads text) c) (\<lambda>item c. (Inr item, c))))
       else if typ = ''str'' then
         then_do (recv (nat msg) c) (\<lambda>s c. (Inr (PBytes s), c))
       else (Inr (PInt (- 1)), c)))"

text \<open>What the peer finds to read once everything written on \<open>c\<close> has arrived, in one
  piece.\<close>

definition delivered :: "conn \<Rightarrow> conn" where
  "delivered c = \<lparr>inbuf = [sent c], at_end = TimedOut, sent = [], send_fault = None, is_closed = False\<rparr>"

definition fresh :: conn where
  "fresh = \<lparr>inbuf = [], at_end = TimedOut, sent = [], send_fault = None, is_closed = False\<rparr>"

text \<open>\<open>get_msg(conn, 'int')\<close>, whose value is always an \<open>int\<close>.\<close>

definition get_int :: "(codepoint list \<Rightarrow> exn + pyval) \<Rightarrow> conn \<Rightarrow> int outcome" where
  "get_int loads conn =
     then_do (get_msg loads ''int'' conn) (\<lambda>item c.
       case item of PInt v \<Rightarrow> (Inr v, c) | _ \<Rightarrow> (Inl TypeError, c))"

section \<open>The stream forwarder: \<open>read_device_scans\<close>\<close>

text \<open>
  The driver owns the ring buffer and writes it behind the forwarder's back, so each
  poll of \<open>ul.get_status\<close> is an input of the model: the \<open>head\<close> it reports and the
  buffer as it is then. \<open>data\<close> is a C pointer, read without bounds checks:
  \<open>data[a:b]\<close> is the samples at \<open>a, a + 1, ..., b - 1\<close>, none when \<open>b \<le> a\<close>.
\<close>

definition ptr_slice :: "(int \<Rightarrow> sample) \<Rightarrow> int \<Rightarrow> int \<Rightarrow> sample list" where
  "ptr_slice data a b = map data [a..b - 1]"

text \<open>\<open>int(x / 2)\<close>: true division, then truncation towards zero. The source divides in
  floating point, which is exact for \<open>\<bar>x\<bar> < 2^53\<close>.\<close>

definition int_half :: "int \<Rightarrow> int" where
  "int_half x = (if 0 \<le> x then x div 2 else - ((- x) div 2))"

record forwarder =
  tail :: int
  samples :: int

text \<open>One pass through the body of \<open>while flag.is_set()\<close>, from \<open>ul.get_status\<close> to
  \<open>sleep(0.1)\<close>.\<close>

definition poll_cycle ::
  "(pyval \<Rightarrow> exn + codepoint list) \<Rightarrow> int \<Rightarrow> int \<Rightarrow> int \<Rightarrow> (int \<Rightarrow> sample) \<Rightarrow> int
     \<Rightarrow> forwarder \<Rightarrow> conn \<Rightarrow> forwarder outcome" where
  "poll_cycle dumps buffer_size sample_rate number_of_channels data head fw conn =
     (if head > tail fw then
        (if head - tail fw > int_half (sample_rate * number_of_channels) then
           (let sending = head - tail fw;
                fw1 = fw\<lparr>samples := samples fw + sending\<rparr>
            in then_do (send_msg dumps (PInt sending) conn) (\<lambda>_ c.
               then_do (sendall (pack_doubles (ptr_slice data (tail fw) head)) c) (\<lambda>_ c.
                 (Inr (fw1\<lparr>tail := head\<rparr>), c))))
         else (Inr fw, conn))
      else
        (let sending = buffer_size - tail fw + head
         in if sending > int_half (sample_rate * number_of_channels) then
              (let fw1 = fw\<lparr>samples := samples fw + sending\<rparr>
               in then_do (send_msg dumps (PInt sending) conn) (\<lambda>_ c.
                  then_do (sendall (pack_doubles (ptr_slice data (tail fw) buffer_size @ ptr_slice data 0 head)) c)
                    (\<lambda>_ c. (Inr (fw1\<lparr>tail := head\<rparr>), c))))
            else (Inr fw, conn)))"

text \<open>The loop, over the polls made while the flag was set.\<close>

fun forward_loop ::
  "(pyval \<Rightarrow> exn + codepoint list) \<Rightarrow> int \<Rightarrow> int \<Rightarrow> int \<Rightarrow> (int \<times> (int \<Rightarrow> sample)) list
     \<Rightarrow> forwarder \<Rightarrow> conn \<Rightarrow> forwarder outcome" where
  "forward_loop dumps buffer_size sample_rate number_of_channels [] fw conn = (Inr fw, conn)"
| "forward_loop dumps buffer_size sample_rate number_of_channels ((head, data) # polls) fw conn =
     then_do (poll_cycle dumps buffer_size sample_rate number_of_channels data head fw conn)
       (\<lambda>fw' c. forward_loop dumps buffer_size sample_rate number_of_channels polls fw' c)"

record descriptor =
  unique_id :: "codepoint list"
  product_id :: int

record config =
  Board :: int
  Descriptor :: "descriptor option"
  Channels :: pyval
  Ranges :: pyval
  Samples :: int
  Rate :: int

text \<open>
  \<open>read_device_scans(config, flag, conn)\<close>. \<open>allocated\<close> says whether
  \<open>ul.scaled_win_buf_alloc\<close> returned a buffer, \<open>arm_fault\<close> is the exception that
  loading the queue or starting the scan raises, if any. Whatever is raised inside the
  \<open>try\<close> is logged and ends the thread; \<open>len(config.Channels)\<close> stands before it.
\<close>

definition read_device_scans ::
  "(pyval \<Rightarrow> exn + codepoint list) \<Rightarrow> bool \<Rightarrow> exn option \<Rightarrow> config
     \<Rightarrow> (int \<times> (int \<Rightarrow> sample)) list \<Rightarrow> conn \<Rightarrow> unit outcome" where
  "read_device_scans dumps allocated arm_fault config polls conn =
     then_do (lift (py_len (Channels config)) conn) (\<lambda>number_of_channels c.
       (let sample_rate = Rate config;
            one_second = sample_rate * number_of_channels;
            buffer_size = (one_second - one_second mod 96) * 10
        in if \<not> allocated then (Inr (), c)
           else
             (case arm_fault of
                Some e \<Rightarrow> (Inr (), c)
              | None \<Rightarrow>
                  (case forward_loop dumps buffer_size sample_rate number_of_channels polls
                          \<lparr>tail = 0, samples = 0\<rparr> c of
                     (_, c') \<Rightarrow> (Inr (), c')))))"

section \<open>The command dispatcher: \<open>handle_client\<close>\<close>

text \<open>
  What \<open>handle_client\<close> reaches outside itself: the JSON library, the board inventory
  (\<open>BOARDS\<close> of \<open>getBoard.py\<close>, taken once when the handler begins: \<open>read_boards\<close>
  is the list of supported boards, \<open>read_dev_desc\<close> indexes the list of all boards and
  raises \<open>IndexError\<close> outside it), the driver calls that can raise, and what
  \<open>thread.join()\<close> waits for: \<open>join_forwarder c\<close> is the connection once the
  forwarder thread has ended, with what it still wrote, or \<open>None\<close> when it never ends.
\<close>

record env =
  json_dumps :: "pyval \<Rightarrow> exn + codepoint list"
  json_loads :: "codepoint list \<Rightarrow> exn + pyval"
  read_boards :: pyval
  read_dev_desc :: "int \<Rightarrow> exn + descriptor"
  create_daq_device :: "int \<Rightarrow> descriptor \<Rightarrow> exn option"
  release_daq_device :: "int \<Rightarrow> exn option"
  join_forwarder :: "conn \<Rightarrow> conn option"

text \<open>The local variables of \<open>handle_client\<close>. \<open>thread\<close> holds the configuration the
  current forwarder thread was started with; \<open>started\<close> lists every forwarder thread this
  handler has started.\<close>

record session =
  board_number :: int
  board_desc :: "descriptor option"
  thread :: "config option"
  stop_event :: bool
  board_selected :: bool
  started :: "config list"

definition new_session :: session where
  "new_session =
     \<lparr>board_number = - 1, board_desc = None, thread = None, stop_event = False,
      board_selected = False, started = []\<rparr>"

text \<open>How one pass through the loop body ends: the loop goes on, it is left by
  \<open>break\<close>, an exception that no \<open>except\<close> clause takes ends the thread, or the
  thread waits for ever.\<close>

datatype flow = Continue | Break | Uncaught exn | Blocked

text \<open>The two \<open>except\<close> clauses of the loop.\<close>

definition on_exception :: "exn \<Rightarrow> flow" where
  "on_exception e =
     (case e of TimeoutError \<Rightarrow> Continue | ConnectionResetError \<Rightarrow> Break | _ \<Rightarrow> Uncaught e)"

definition cmd_list :: "env \<Rightarrow> session \<Rightarrow> conn \<Rightarrow> flow \<times> session \<times> conn" where
  "cmd_list ev s conn =
     (case send_msg (json_dumps ev) (read_boards ev) conn of
        (Inl e, c) \<Rightarrow> (on_exception e, s, c)
      | (Inr _, c) \<Rightarrow> (Continue, s, c))"

text \<open>\<open>'open'\<close>: everything raised inside is taken by \<open>except Exception\<close> and logged;
  the assignments made before it stay.\<close>

definition cmd_open :: "env \<Rightarrow> session \<Rightarrow> conn \<Rightarrow> flow \<times> session \<times> conn" where
  "cmd_open ev s conn =
     (if \<not> board_selected s then
        (case get_int (json_loads ev) conn of
           (Inl e, c1) \<Rightarrow> (Continue, s, c1)
         | (Inr n, c1) \<Rightarrow>
             (let s1 = s\<lparr>board_number := n\<rparr>
              in case read_dev_desc ev n of
                   Inl e \<Rightarrow> (Continue, s1, c1)
                 | Inr d \<Rightarrow>
                     (let s2 = s1\<lparr>board_desc := Some d\<rparr>
                      in case send_msg (json_dumps ev) (PStr (unique_id d)) c1 of
                           (Inl e, c2) \<Rightarrow> (Continue, s2, c2)
                         | (Inr _, c2) \<Rightarrow>
                             (case create_daq_device ev n d of
                                Some e \<Rightarrow> (Continue, s2, c2)
                              | None \<Rightarrow> (Continue, s2\<lparr>board_selected := True\<rparr>, c2)))))
      else (Continue, s, conn))"

definition cmd_start :: "env \<Rightarrow> session \<Rightarrow> conn \<Rightarrow> flow \<times> session \<times> conn" where
  "cmd_start ev s conn =
     (if \<not> board_selected s then (Continue, s, conn)
      else
        (case then_do (get_msg (json_loads ev) ''list'' conn) (\<lambda>input_channels c.
              then_do (get_msg (json_loads ev) ''list'' c) (\<lambda>input_ranges c.
              then_do (get_int (json_loads ev) c) (\<lambda>sample_rate c.
              then_do (get_int (json_loads ev) c) (\<lambda>samples_to_display c.
                (Inr \<lparr>Board = board_number s, Descriptor = board_desc s,
                      Channels = input_channels, Ranges = input_ranges,
                      Samples = samples_to_display, Rate = sample_rate\<rparr>, c))))) of
           (Inl e, c) \<Rightarrow> (on_exception e, s, c)
         | (Inr configuration, c) \<Rightarrow>
             (Continue,
              s\<lparr>stop_event := True, thread := Some configuration,
                started := started s @ [configuration]\<rparr>, c)))"

definition cmd_stop :: "env \<Rightarrow> session \<Rightarrow> conn \<Rightarrow> flow \<times> session \<times> conn" where
  "cmd_stop ev s conn =
     (if stop_event s then
        (let s1 = s\<lparr>stop_event := False\<rparr>
         in case thread s1 of
              None \<Rightarrow> (Uncaught AttributeError, s1, conn)
            | Some _ \<Rightarrow>
                (case join_forwarder ev conn of
                   None \<Rightarrow> (Blocked, s1, conn)
                 | Some c \<Rightarrow> (Continue, s1\<lparr>thread := None, board_selected := False\<rparr>, c)))
      else
        (case release_daq_device ev (board_number s) of
           Some e \<Rightarrow> (on_exception e, s, conn)
         | None \<Rightarrow> (Continue, s\<lparr>board_selected := False\<rparr>, conn)))"

text \<open>\<open>match message\<close>.\<close>

definition dispatch :: "env \<Rightarrow> codepoint list \<Rightarrow> session \<Rightarrow> conn \<Rightarrow> flow \<times> session \<times> conn" where
  "dispatch ev message s conn =
     (if message = str ''list'' then cmd_list ev s conn
      else if message = str ''open'' then cmd_open ev s conn
      else if message = str ''start'' then cmd_start ev s conn
      else if message = str ''stop'' then cmd_stop ev s conn
      else if message = str ''exit'' then (Break, s, conn)
      else (Continue, s, conn))"

text \<open>The body of \<open>while True\<close>: read a command frame, leave on an empty one, decode,
  lower and dispatch.\<close>

definition handle_client_step :: "env \<Rightarrow> session \<Rightarrow> conn \<Rightarrow> flow \<times> session \<times> conn" where
  "handle_client_step ev s conn =
     (case get_msg (json_loads ev) ''str'' conn of
        (Inl e, c) \<Rightarrow> (on_exception e, s, c)
      | (Inr data, c) \<Rightarrow>
          (if \<not> truthy data then (Break, s, c)
           else
             (case data of
                PBytes b \<Rightarrow>
                  (case decode_utf8 b of
                     Inl e \<Rightarrow> (on_exception e, s, c)
                   | Inr text \<Rightarrow> dispatch ev (lower text) s c)
              | _ \<Rightarrow> (Uncaught AttributeError, s, c))))"

text \<open>
  The loop and what follows it. A client that sends nothing is read again after every
  timeout, so the loop need not end: it runs on fuel, and \<open>None\<close> is a thread that has
  not come back. The result is the exception that ended the thread, if one did, the local
  variables and the connection; \<open>conn.close()\<close> is reached after \<open>break\<close> only.
\<close>

fun handle_client_loop ::
  "nat \<Rightarrow> env \<Rightarrow> session \<Rightarrow> conn \<Rightarrow> (exn option \<times> session \<times> conn) option" where
  "handle_client_loop 0 ev s conn = None"
| "handle_client_loop (Suc n) ev s conn =
     (case handle_client_step ev s conn of
        (Continue, s', c) \<Rightarrow> handle_client_loop n ev s' c
      | (Break, s', c) \<Rightarrow> Some (None, s', close c)
      | (Uncaught e, s', c) \<Rightarrow> Some (Some e, s', c)
      | (Blocked, s', c) \<Rightarrow> None)"

definition handle_client :: "nat \<Rightarrow> env \<Rightarrow> conn \<Rightarrow> (exn option \<times> session \<times> conn) option" where
  "handle_client fuel ev conn = handle_client_loop fuel ev new_session conn"

section \<open>Connection admission: the accept loop of \<open>start_server\<close>\<close>

text \<open>
  The accept loop looks at \<open>threading.active_count()\<close> only, so the server is modelled
  by its live threads: the main thread, the handler threads (\<open>handle_client\<close>) and the
  forwarder threads (\<open>read_device_scans\<close>). \<open>refused\<close> counts the connections the loop
  closed instead of handing them to a thread.
\<close>

record server =
  handlers :: nat
  forwarders :: nat
  refused :: nat

definition active_count :: "server \<Rightarrow> nat" where
  "active_count sv = 1 + handlers sv + forwarders sv"

text \<open>One pass through the body of the accept loop.\<close>

definition accept :: "server \<Rightarrow> server" where
  "accept sv =
     (let thread_count = active_count sv - 1
      in if thread_count > 1 then sv\<lparr>refused := refused sv + 1\<rparr>
         else sv\<lparr>handlers := handlers sv + 1\<rparr>)"

definition listening :: server where
  "listening = \<lparr>handlers = 0, forwarders = 0, refused = 0\<rparr>"

text \<open>The states the server gets into: a connection is accepted, a handler thread ends,
  a handler starts a forwarder thread (\<open>'start'\<close>), a forwarder thread ends.\<close>

inductive reachable :: "server \<Rightarrow> bool" where
  at_listen: "reachable listening"
| on_accept: "reachable sv \<Longrightarrow> reachable (accept sv)"
| handler_ends: "reachable sv \<Longrightarrow> 0 < handlers sv \<Longrightarrow> reachable (sv\<lparr>handlers := handlers sv - 1\<rparr>)"
| forwarder_starts: "reachable sv \<Longrightarrow> 0 < handlers sv \<Longrightarrow> reachable (sv\<lparr>forwarders := forwarders sv + 1\<rparr>)"
| forwarder_ends: "reachable sv \<Longrightarrow> 0 < forwarders sv \<Longrightarrow> reachable (sv\<lparr>forwarders := forwarders sv - 1\<rparr>)"

section \<open>The consumer: \<open>DaqSocketManager\<close>\<close>

text \<open>The attributes of a \<open>DaqSocketManager\<close> that the session calls and the receiver
  thread use. \<open>self_thread\<close> says whether \<open>self.thread\<close> holds a thread.\<close>

record manager =
  self_socket :: "conn option"
  self_running :: bool
  self_thread :: bool
  self_stop_event :: bool
  self_data_list :: "sample list"
  self_new_data :: bool

text \<open>\<open>self.send_msg(itm)\<close>: the code of \<open>send_msg\<close> on \<open>self.socket\<close>. With no socket
  the first \<open>self.socket.sendall\<close> raises \<open>AttributeError\<close>, after the length has been
  packed.\<close>

definition manager_send_msg ::
  "(pyval \<Rightarrow> exn + codepoint list) \<Rightarrow> pyval \<Rightarrow> manager \<Rightarrow> (exn + int) \<times> manager" where
  "manager_send_msg dumps itm m =
     (case self_socket m of
        Some c \<Rightarrow> (case send_msg dumps itm c of (r, c') \<Rightarrow> (r, m\<lparr>self_socket := Some c'\<rparr>))
      | None \<Rightarrow>
          (case itm of
             PStr s \<Rightarrow>
               (case pack_I (int (length s)) of
                  Inl e \<Rightarrow> (Inl e, m) | Inr _ \<Rightarrow> (Inl AttributeError, m))
           | PInt v \<Rightarrow>
               (case pack_I v of Inl e \<Rightarrow> (Inl e, m) | Inr _ \<Rightarrow> (Inl AttributeError, m))
           | PList l \<Rightarrow>
               (case dumps (PList l) of
                  Inl e \<Rightarrow> (Inl e, m)
                | Inr json_string \<Rightarrow>
                    (case pack_I (int (length json_string)) of
                       Inl e \<Rightarrow> (Inl e, m) | Inr _ \<Rightarrow> (Inl AttributeError, m)))
           | _ \<Rightarrow> (Inr (- 1), m)))"

text \<open>A \<open>return\<close> inside \<open>finally\<close> replaces whatever the \<open>try\<close> statement was about
  to do: return a value or pass an exception on.\<close>

definition finally_return :: "pyval \<Rightarrow> exn + pyval \<Rightarrow> exn + pyval" where
  "finally_return v pending = Inr v"

text \<open>
  \<open>stop_server(self)\<close>. \<open>join m\<close> is the manager once the receiver thread has ended,
  with what that thread still wrote to it, or \<open>None\<close> when it never ends and
  \<open>self.thread.join()\<close> does not come back. The result is \<open>None\<close> when the call does
  not return.
\<close>

definition stop_server_try ::
  "(pyval \<Rightarrow> exn + codepoint list) \<Rightarrow> (manager \<Rightarrow> manager option) \<Rightarrow> manager
     \<Rightarrow> ((exn + pyval) \<times> manager) option" where
  "stop_server_try dumps join m =
     (case manager_send_msg dumps (PStr (str ''stop'')) m of
        (Inl e, m1) \<Rightarrow> Some (Inl e, m1)
      | (Inr _, m1) \<Rightarrow>
          (if self_running m1 then
             (let m2 = m1\<lparr>self_stop_event := False\<rparr>
              in if \<not> self_thread m2 then Some (Inl AttributeError, m2)
                 else (case join m2 of None \<Rightarrow> None | Some m3 \<Rightarrow> Some (Inr (PInt 0), m3)))
           else Some (Inr (PInt 0), m1)))"

definition stop_server ::
  "(pyval \<Rightarrow> exn + codepoint list) \<Rightarrow> (manager \<Rightarrow> manager option) \<Rightarrow> manager
     \<Rightarrow> ((exn + pyval) \<times> manager) option" where
  "stop_server dumps join m =
     (case stop_server_try dumps join m of
        None \<Rightarrow> None
      | Some (r, m1) \<Rightarrow>
          (let handled =
                 (case r of
                    Inl TimeoutError \<Rightarrow> Inr PNone
                  | Inl ConnectionResetError \<Rightarrow> Inr PNone
                  | _ \<Rightarrow> r)
           in Some (finally_return (PStr (str ''idle'')) handled, m1\<lparr>self_running := False\<rparr>)))"

text \<open>
  The inner loop of \<open>read_server_scans\<close>: \<open>while len(recv_str) < chunk_size\<close>. When the
  server has closed the connection every \<open>recv\<close> returns \<open>b''\<close> and the loop does not
  end: it runs on fuel.
\<close>

fun accumulate :: "nat \<Rightarrow> int \<Rightarrow> byte list \<Rightarrow> conn \<Rightarrow> (byte list) outcome option" where
  "accumulate 0 chunk_size recv_str c = None"
| "accumulate (Suc n) chunk_size recv_str c =
     (if int (length recv_str) < chunk_size then
        (let diff = min (chunk_size - int (length recv_str)) chunk_size
         in case recv (nat diff) c of
              (Inl e, c') \<Rightarrow> Some (Inl e, c')
            | (Inr chunk, c') \<Rightarrow> accumulate n chunk_size (recv_str @ chunk) c')
      else Some (Inr recv_str, c))"

text \<open>The body of \<open>while self.stop_event.is_set()\<close> up to the block it is about to
  publish.\<close>

definition receive_block ::
  "nat \<Rightarrow> (codepoint list \<Rightarrow> exn + pyval) \<Rightarrow> conn \<Rightarrow> (sample list) outcome option" where
  "receive_block n loads c =
     (case get_int loads c of
        (Inl e, c1) \<Rightarrow> Some (Inl e, c1)
      | (Inr samples_to_read, c1) \<Rightarrow>
          (case accumulate n (8 * samples_to_read) [] c1 of
             None \<Rightarrow> None
           | Some (Inl e, c2) \<Rightarrow> Some (Inl e, c2)
           | Some (Inr recv_str, c2) \<Rightarrow> Some (unpack_doubles recv_str, c2)))"

text \<open>How the receiver thread ends: its flag was found clear, \<open>except TimeoutError\<close>,
  \<open>except ConnectionResetError\<close>, or an exception neither clause takes.\<close>

datatype thread_end = Stopped | TimedOutExit | ResetExit | Died exn

text \<open>\<open>read_server_scans(self, nop)\<close>; \<open>None\<close> is a thread that has not ended when the
  fuel is used up.\<close>

fun read_server_scans ::
  "nat \<Rightarrow> (codepoint list \<Rightarrow> exn + pyval) \<Rightarrow> manager \<Rightarrow> (thread_end \<times> manager) option" where
  "read_server_scans 0 loads m = None"
| "read_server_scans (Suc n) loads m =
     (if self_stop_event m then
        (case self_socket m of
           None \<Rightarrow> Some (Died AttributeError, m)
         | Some c \<Rightarrow>
             (case receive_block n loads c of
                None \<Rightarrow> None
              | Some (Inl e, c') \<Rightarrow>
                  (case e of
                     TimeoutError \<Rightarrow>
                       Some (TimedOutExit, m\<lparr>self_socket := Some c', self_new_data := False\<rparr>)
                   | ConnectionResetError \<Rightarrow> Some (ResetExit, m\<lparr>self_socket := Some c'\<rparr>)
                   | _ \<Rightarrow> Some (Died e, m\<lparr>self_socket := Some c'\<rparr>))
              | Some (Inr block, c') \<Rightarrow>
                  read_server_scans n loads
                    (m\<lparr>self_socket := Some c', self_data_list := block, self_new_data := True\<rparr>)))
      else Some (Stopped, m\<lparr>self_new_data := False\<rparr>))"

text \<open>The blocks a run of the receiver loop takes off the connection whole, in order:
  what it publishes, one after the other, until a pass fails.\<close>

fun blocks_received ::
  "nat \<Rightarrow> (codepoint list \<Rightarrow> exn + pyval) \<Rightarrow> conn \<Rightarrow> sample list list" where
  "blocks_received 0 loads c = []"
| "blocks_received (Suc n) loads c =
     (case receive_block n loads c of
        Some (Inr block, c') \<Rightarrow> block # blocks_received n loads c'
      | _ \<Rightarrow> [])"

section \<open>Fixtures for concrete runs\<close>

definition no_json_dumps :: "pyval \<Rightarrow> exn + codepoint list" where
  "no_json_dumps v = Inl TypeError"

definition no_json_loads :: "codepoint list \<Rightarrow> exn + pyval" where
  "no_json_loads s = Inl JSONDecodeError"

definition silent :: "int \<Rightarrow> sample" where
  "silent i = 0"

definition ramp :: "int \<Rightarrow> sample" where
  "ramp i = word_of_int i"

definition quiet_env :: env where
  "quiet_env =
     \<lparr>json_dumps = no_json_dumps, json_loads = no_json_loads, read_boards = PList [],
      read_dev_desc = (\<lambda>n. Inl IndexError), create_daq_device = (\<lambda>n d. None),
      release_daq_device = (\<lambda>n. None), join_forwarder = Some\<rparr>"

definition running_manager :: manager where
  "running_manager =
     \<lparr>self_socket = Some fresh, self_running = True, self_thread = True,
      self_stop_event = True, self_data_list = [], self_new_data = False\<rparr>"

definition streaming_manager :: manager where
  "streaming_manager =
     running_manager\<lparr>self_socket :=
       Some (fresh\<lparr>inbuf := [[1, 0, 0, 0, 0, 0, 0, 0, 0, 0, 0xF0, 0x3F]]\<rparr>)\<rparr>"

text \<open>What comes back when \<open>v\<close> is sent on a fresh connection and read at the other end
  as a \<open>typ\<close>, everything having arrived in one piece.\<close>

definition round_trip ::
  "(pyval \<Rightarrow> exn + codepoint list) \<Rightarrow> (codepoint list \<Rightarrow> exn + pyval) \<Rightarrow> string \<Rightarrow> pyval
     \<Rightarrow> exn + pyval" where
  "round_trip dumps loads typ v =
     (case send_msg dumps v fresh of
        (Inl e, c) \<Rightarrow> Inl e
      | (Inr _, c) \<Rightarrow> fst (get_msg loads typ (delivered c)))"

section \<open>The frame codec\<close>

lemma le_bytes_sum:
  fixes v :: int
  assumes "0 \<le> v" "v < 4294967296"
  shows "v mod 256 + 256 * (v div 256 mod 256) + 65536 * (v div 65536 mod 256)
          + 16777216 * (v div 16777216 mod 256) = v"
proof -
  have 1: "v mod 65536 = 256 * (v div 256 mod 256) + v mod 256"
    using zmod_zmult2_eq [of 256 v 256] by simp
  have 2: "v mod 16777216 = 65536 * (v div 65536 mod 256) + v mod 65536"
    using zmod_zmult2_eq [of 256 v 65536] by simp
  have 3: "v mod 4294967296 = 16777216 * (v div 16777216 mod 256) + v mod 16777216"
    using zmod_zmult2_eq [of 256 v 16777216] by simp
  have 4: "v mod 4294967296 = v"
    using assms by simp
  show ?thesis using 1 2 3 4 by linarith
qed

lemma uint_byte: "uint (word_of_int x :: byte) = x mod 256"
  by (simp add: uint_word_of_int take_bit_eq_mod)

lemma unpack_I_bytes:
  "unpack_I [word_of_int v, word_of_int (v div 256), word_of_int (v div 65536),
             word_of_int (v div 16777216)]
    = Inr (v mod 256 + 256 * (v div 256 mod 256) + 65536 * (v div 65536 mod 256)
          + 16777216 * (v div 16777216 mod 256))"
  by (simp only: unpack_I.simps uint_byte)

lemma send_count:
  assumes "0 \<le> v" "v < 2 ^ 32" "send_fault c = None"
  shows "\<exists>packed. pack_I v = Inr packed \<and>
           send_msg dumps (PInt v) c = (Inr 0, c\<lparr>sent := sent c @ packed\<rparr>)"
  using assms by (simp add: send_msg_def then_do_def lift_def pack_I_def sendall_def)

lemma recv_keeps:
  "recv n c = (r, c') \<Longrightarrow>
     sent c' = sent c \<and> is_closed c' = is_closed c \<and> send_fault c' = send_fault c
       \<and> at_end c' = at_end c"
  by (auto simp: recv_def split: if_splits list.splits end_kind.splits)

lemma get_msg_sent: "get_msg loads typ c = (r, c') \<Longrightarrow> sent c' = sent c"
  by (auto simp: get_msg_def then_do_def lift_def split: prod.splits sum.splits if_splits
      dest!: recv_keeps)

text \<open>Where the round trip does hold: a count that fits 32 bits comes back as it was
  sent, and a string of ASCII characters comes back as its bytes, which decode to it.\<close>

lemma pack_I_unpack_I:
  assumes "0 \<le> v" "v < 2 ^ 32"
  shows "\<exists>bs. pack_I v = Inr bs \<and> length bs = 4 \<and> unpack_I bs = Inr v"
proof -
  have "v < 4294967296" using assms(2) by simp
  then have "unpack_I [word_of_int v, word_of_int (v div 256), word_of_int (v div 65536),
                       word_of_int (v div 16777216)] = Inr v"
    using le_bytes_sum [OF assms(1)] by (simp only: unpack_I_bytes)
  moreover have "pack_I v = Inr [word_of_int v, word_of_int (v div 256),
                  word_of_int (v div 65536), word_of_int (v div 16777216)]"
    using assms by (simp only: pack_I_def if_True simp_thms)
  ultimately show ?thesis by simp
qed

lemma round_trip_int:
  assumes "0 \<le> v" "v < 2 ^ 32"
  shows "round_trip dumps loads ''int'' (PInt v) = Inr (PInt v)"
proof -
  obtain bs where bs: "pack_I v = Inr bs" "length bs = 4" "unpack_I bs = Inr v"
    using pack_I_unpack_I [OF assms] by blast
  have "bs \<noteq> []" using bs(2) by auto
  then show ?thesis
    using bs
    by (simp add: round_trip_def send_msg_def get_msg_def then_do_def lift_def sendall_def
        recv_def delivered_def fresh_def)
qed

lemma encode_utf8_ascii:
  "\<forall>c \<in> set s. c < 0x80 \<Longrightarrow> encode_utf8 s = Inr (map of_nat s)"
  by (induction s) (simp_all add: encode_cp_def)

lemma unat_ascii: "c < 128 \<Longrightarrow> unat (of_nat c :: byte) = c"
  by (simp add: unat_of_nat take_bit_eq_mod)

lemma decode_utf8_ascii:
  "\<forall>c \<in> set s. c < 0x80 \<Longrightarrow> decode_utf8 (map of_nat s) = Inr s"
  by (induction s)
     (simp_all add: unat_ascii continuation_count_def lead_bits_def well_formed_cp_def)

lemma round_trip_ascii:
  assumes "\<forall>c \<in> set s. c < 0x80" "int (length s) < 2 ^ 32"
  shows "round_trip dumps loads ''str'' (PStr s) = Inr (PBytes (map of_nat s)) \<and>
         decode_utf8 (map of_nat s) = Inr s"
proof -
  obtain bs where bs: "pack_I (int (length s)) = Inr bs" "length bs = 4"
      "unpack_I bs = Inr (int (length s))"
    using pack_I_unpack_I [of "int (length s)"] assms(2) by auto
  have ne: "bs \<noteq> []" using bs(2) by auto
  have "round_trip dumps loads ''str'' (PStr s) = Inr (PBytes (map of_nat s))"
    using bs ne encode_utf8_ascii [OF assms(1)]
    by (cases "s = []")
       (simp_all add: round_trip_def send_msg_def get_msg_def then_do_def lift_def sendall_def
          recv_def delivered_def fresh_def)
  then show ?thesis
    using decode_utf8_ascii [OF assms(1)] by simp
qed

text \<open>
  C1 (the codec round trip), at a string outside ASCII. \<open>send_msg\<close> writes \<open>len(itm)\<close>,
  the number of code points, as the length of the frame and then the UTF-8 bytes, which
  are more. For the one-character string U+00E9 the frame says one byte and carries two,
  \<open>C3 A9\<close>; \<open>get_msg\<close> reads one byte and returns \<open>b'\xc3'\<close>, which is neither the
  string sent nor its encoding, and does not decode.
\<close>

theorem send_msg_length_counts_code_points:
  "fst (send_msg dumps (PStr [0xE9]) fresh) = Inr 0 \<and>
   sent (snd (send_msg dumps (PStr [0xE9]) fresh)) = [1, 0, 0, 0, 0xC3, 0xA9] \<and>
   round_trip dumps loads ''str'' (PStr [0xE9]) = Inr (PBytes [0xC3]) \<and>
   encode_utf8 [0xE9] = Inr [0xC3, 0xA9] \<and>
   decode_utf8 [0xC3] = Inl UnicodeDecodeError"
  by (simp add: round_trip_def send_msg_def get_msg_def then_do_def lift_def pack_I_def
      encode_cp_def sendall_def recv_def delivered_def fresh_def continuation_count_def)

text \<open>
  C5 (decoding accumulates until the frame is complete), at a frame that arrives in two
  pieces. The frame of \<open>'list'\<close> is \<open>04 00 00 00 6C 69 73 74\<close>; when the first piece ends
  after \<open>6C 69\<close>, \<open>get_msg\<close> returns \<open>b'li'\<close> and leaves \<open>73 74\<close> unread, to be taken for
  the next length. When the peer closes after the length, \<open>get_msg\<close> returns \<open>b''\<close>
  without raising.
\<close>

theorem get_msg_returns_short_payload:
  "get_msg loads ''str'' (fresh\<lparr>inbuf := [[4, 0, 0, 0, 0x6C, 0x69], [0x73, 0x74]]\<rparr>)
     = (Inr (PBytes [0x6C, 0x69]), fresh\<lparr>inbuf := [[], [0x73, 0x74]]\<rparr>) \<and>
   get_msg loads ''str'' (fresh\<lparr>inbuf := [[4, 0, 0, 0]], at_end := Closed\<rparr>)
     = (Inr (PBytes []), fresh\<lparr>inbuf := [], at_end := Closed\<rparr>)"
  by (simp add: get_msg_def then_do_def lift_def recv_def fresh_def)

section \<open>The stream forwarder\<close>

lemma wrap_occupancy:
  fixes h t cap :: int
  assumes "0 \<le> h" "h < t" "t < cap"
  shows "(h - t) mod cap = cap - t + h"
proof -
  have "(h - t) mod cap = (h - t + cap) mod cap"
    by simp
  also have "\<dots> = h - t + cap"
    by (rule mod_pos_pos_trivial) (use assms in linarith)+
  finally show ?thesis by simp
qed

lemma length_ptr_slice: "length (ptr_slice data a b) = nat (b - a)"
  by (simp add: ptr_slice_def)

lemma length_pack_doubles: "length (pack_doubles l) = 8 * length l"
  by (induction l) (simp_all add: pack_doubles_def pack_d_def)

text \<open>
  Strictly above the threshold the forwarder sends. With \<open>tail\<close> and \<open>head\<close> inside the
  buffer, in every poll cycle whose occupancy \<open>(head - tail) mod buffer_size\<close> exceeds
  \<open>int(sample_rate * number_of_channels / 2)\<close>, the forwarder writes the occupancy as a
  count frame, then the samples from \<open>tail\<close> up to \<open>head\<close> in ring order, and \<open>tail\<close>
  becomes \<open>head\<close>: it has advanced by the occupancy modulo the capacity.
\<close>

lemma poll_cycle_above_threshold:
  assumes "0 \<le> tail fw" "tail fw < buffer_size" "0 \<le> head" "head < buffer_size"
    and "0 \<le> sample_rate * number_of_channels"
    and "int_half (sample_rate * number_of_channels) < (head - tail fw) mod buffer_size"
    and "buffer_size \<le> 2 ^ 32" and "send_fault conn = None"
  shows "\<exists>packed. pack_I ((head - tail fw) mod buffer_size) = Inr packed \<and>
     poll_cycle dumps buffer_size sample_rate number_of_channels data head fw conn =
       (Inr (fw\<lparr>samples := samples fw + (head - tail fw) mod buffer_size, tail := head\<rparr>),
        conn\<lparr>sent := sent conn @ packed @ pack_doubles
           (if tail fw < head then ptr_slice data (tail fw) head
            else ptr_slice data (tail fw) buffer_size @ ptr_slice data 0 head)\<rparr>) \<and>
     (tail fw + (head - tail fw) mod buffer_size) mod buffer_size = head"
proof -
  let ?occ = "(head - tail fw) mod buffer_size"
  have thr: "0 \<le> int_half (sample_rate * number_of_channels)"
    using assms(5) by (simp add: int_half_def)
  have ne: "head \<noteq> tail fw" using assms(6) thr by auto
  have pos: "0 < buffer_size" using assms(1,2) by simp
  have b: "?occ < buffer_size" using pos by simp
  have occ_lt: "0 \<le> ?occ" "?occ < 2 ^ 32"
    using pos b assms(7) by (simp, linarith)
  obtain packed where p: "pack_I ?occ = Inr packed"
     "send_msg dumps (PInt ?occ) conn = (Inr 0, conn\<lparr>sent := sent conn @ packed\<rparr>)"
    using send_count [OF occ_lt assms(8)] by blast
  show ?thesis
  proof (cases "tail fw < head")
    case True
    then have occ: "?occ = head - tail fw"
      using assms(1,4) by (simp add: mod_pos_pos_trivial)
    show ?thesis
      using True p assms(6,4,3) occ
      by (simp add: poll_cycle_def Let_def then_do_def sendall_def assms(8))
  next
    case False
    then have lt: "head < tail fw" using ne by simp
    have occ: "?occ = buffer_size - tail fw + head"
      by (rule wrap_occupancy [OF assms(3) lt assms(2)])
    have again: "(tail fw + ?occ) mod buffer_size = head"
      using assms(3,4) by (simp add: occ mod_pos_pos_trivial)
    show ?thesis
      using False p assms(6) again unfolding occ
      by (simp add: poll_cycle_def Let_def then_do_def sendall_def assms(8))
  qed
qed

text \<open>A run of it: 1000 Hz on 4 channels (threshold 2000, capacity 39360), 2001 samples
  waiting.\<close>

lemma poll_cycle_above_threshold_run:
  "poll_cycle no_json_dumps 39360 1000 4 silent 2001 \<lparr>tail = 0, samples = 0\<rparr> fresh =
     (Inr \<lparr>tail = 2001, samples = 2001\<rparr>,
      fresh\<lparr>sent := [0xD1, 7, 0, 0] @ pack_doubles (ptr_slice silent 0 2001)\<rparr>)"
  using poll_cycle_above_threshold
    [of "\<lparr>tail = 0, samples = 0\<rparr>" 39360 2001 1000 4 fresh no_json_dumps silent]
  by (simp add: pack_I_def fresh_def int_half_def del: upto_rec_numeral)

text \<open>
  C2 (at or above the threshold the forwarder sends), at an occupancy equal to the
  threshold. Both branches of the loop compare with \<open>>\<close>, where the comment above them
  calls the threshold the minimum amount to send. At 1000 Hz on 4 channels the threshold
  is 2000; with \<open>tail = 0\<close> and \<open>head = 2000\<close>, 2000 samples are waiting, and the cycle
  sends nothing and leaves \<open>tail\<close> where it was.
\<close>

theorem poll_cycle_at_threshold_sends_nothing:
  "int_half (1000 * 4) \<le> (2000 - tail \<lparr>tail = 0, samples = 0\<rparr>) mod 39360 \<and>
   poll_cycle no_json_dumps 39360 1000 4 silent 2000 \<lparr>tail = 0, samples = 0\<rparr> fresh
     = (Inr \<lparr>tail = 0, samples = 0\<rparr>, fresh)"
  by (simp add: poll_cycle_def int_half_def)

text \<open>When \<open>head = tail\<close> the \<open>else\<close> branch computes \<open>buffer_size - tail + head\<close>, the
  whole capacity, and sends the whole buffer.\<close>

lemma empty_ring_taken_for_full:
  assumes "head = tail fw" "int_half (sample_rate * number_of_channels) < buffer_size"
    "0 \<le> buffer_size" "buffer_size < 2 ^ 32" "send_fault conn = None"
  shows "\<exists>packed. pack_I buffer_size = Inr packed \<and>
    poll_cycle dumps buffer_size sample_rate number_of_channels data head fw conn =
     (Inr (fw\<lparr>samples := samples fw + buffer_size\<rparr>),
      conn\<lparr>sent := sent conn @ packed @
        pack_doubles (ptr_slice data (tail fw) buffer_size @ ptr_slice data 0 (tail fw))\<rparr>)"
proof -
  obtain packed where p: "pack_I buffer_size = Inr packed"
     "send_msg dumps (PInt buffer_size) conn = (Inr 0, conn\<lparr>sent := sent conn @ packed\<rparr>)"
    using send_count [OF assms(3,4,5)] by blast
  show ?thesis using assms(1,2) p
    by (simp add: poll_cycle_def Let_def then_do_def sendall_def assms(5))
qed

text \<open>Below the threshold, and with something waiting, a cycle sends nothing and leaves
  \<open>tail\<close> alone.\<close>

lemma poll_cycle_below_threshold:
  assumes "0 \<le> tail fw" "tail fw < buffer_size" "0 \<le> head" "head < buffer_size"
    and "head \<noteq> tail fw"
    and "(head - tail fw) mod buffer_size \<le> int_half (sample_rate * number_of_channels)"
  shows "poll_cycle dumps buffer_size sample_rate number_of_channels data head fw conn
           = (Inr fw, conn)"
proof (cases "tail fw < head")
  case True
  then have "(head - tail fw) mod buffer_size = head - tail fw"
    using assms(1,4) by (simp add: mod_pos_pos_trivial)
  then show ?thesis using True assms(6) by (simp add: poll_cycle_def)
next
  case False
  then have lt: "head < tail fw" using assms(5) by simp
  show ?thesis using False assms(6) wrap_occupancy [OF assms(3) lt assms(2)]
    by (simp add: poll_cycle_def)
qed

text \<open>
  C3 (below the threshold nothing is sent), at \<open>head = tail\<close>: occupancy zero. At 1000 Hz
  on 4 channels, with \<open>tail = head = 1000\<close>, the cycle sends the count 39360, which is
  the capacity, and all 39360 samples of the buffer, from 1000 to the end and from 0 to
  1000.
\<close>

theorem poll_cycle_empty_ring_sends_buffer:
  "(1000 - tail \<lparr>tail = 1000, samples = 5000\<rparr>) mod 39360 = 0 \<and>
   poll_cycle dumps 39360 1000 4 data 1000 \<lparr>tail = 1000, samples = 5000\<rparr> fresh =
     (Inr \<lparr>tail = 1000, samples = 44360\<rparr>,
      fresh\<lparr>sent := [0xC0, 0x99, 0, 0] @
        pack_doubles (ptr_slice data 1000 39360 @ ptr_slice data 0 1000)\<rparr>)"
  using empty_ring_taken_for_full
    [of 1000 "\<lparr>tail = 1000, samples = 5000\<rparr>" 1000 4 39360 fresh dumps data]
  by (simp add: int_half_def pack_I_def fresh_def del: upto_rec_numeral append.simps)

text \<open>The samples of \<open>[t, cap)\<close> followed by those of \<open>[0, h)\<close> are the samples at
  \<open>t, t + 1, ...\<close> taken modulo the capacity: each once, in the order in which they were
  written.\<close>

lemma ring_order:
  fixes t h cap :: int
  assumes "0 \<le> h" "h < t" "t < cap"
  shows "map data [t..cap - 1] @ map data [0..h - 1]
           = map (\<lambda>k. data ((t + int k) mod cap)) [0..<nat (cap - t + h)]"
proof (rule nth_equalityI)
  show "length (map data [t..cap - 1] @ map data [0..h - 1])
          = length (map (\<lambda>k. data ((t + int k) mod cap)) [0..<nat (cap - t + h)])"
    using assms by simp
next
  fix k
  assume "k < length (map data [t..cap - 1] @ map data [0..h - 1])"
  then have k: "int k < cap - t + h" using assms by simp
  show "(map data [t..cap - 1] @ map data [0..h - 1]) ! k
          = map (\<lambda>k. data ((t + int k) mod cap)) [0..<nat (cap - t + h)] ! k"
  proof (cases "int k < cap - t")
    case True
    then have m: "(t + int k) mod cap = t + int k"
      using assms by (simp add: mod_pos_pos_trivial)
    have kl: "k < nat (cap - t)" using True by linarith
    have "[t..cap - 1] ! k = t + int k"
      by (rule nth_upto) (use True in linarith)
    then show ?thesis using kl k m assms by (simp add: nth_append)
  next
    case False
    have "(t + int k) mod cap = (t + int k - cap) mod cap" by simp
    also have "\<dots> = t + int k - cap"
      by (rule mod_pos_pos_trivial) (use False k assms in linarith)+
    finally have m: "(t + int k) mod cap = t + int k - cap" .
    have i: "int (k - nat (cap - t)) = t + int k - cap"
      using False assms by simp
    have kl: "\<not> k < nat (cap - t)" using False by linarith
    have kh: "k - nat (cap - t) < nat h" using False k assms by linarith
    have "[0..h - 1] ! (k - nat (cap - t)) = 0 + int (k - nat (cap - t))"
      by (rule nth_upto) (use kh in linarith)
    then have e: "[0..h - 1] ! (k - nat (cap - t)) = t + int k - cap"
      using i by simp
    have "(map data [t..cap - 1] @ map data [0..h - 1]) ! k
            = map data [0..h - 1] ! (k - nat (cap - t))"
      using kl assms by (simp add: nth_append)
    also have "\<dots> = data ([0..h - 1] ! (k - nat (cap - t)))"
      using kh by simp
    also have "\<dots> = data (t + int k - cap)"
      by (simp only: e)
    finally have l: "(map data [t..cap - 1] @ map data [0..h - 1]) ! k
                       = data (t + int k - cap)" .
    have "map (\<lambda>k. data ((t + int k) mod cap)) [0..<nat (cap - t + h)] ! k
            = data ((t + int k) mod cap)"
    proof -
      have "k < nat (cap - t + h)" using k by linarith
      then show ?thesis by simp
    qed
    then show ?thesis using l m by simp
  qed
qed

lemma pack_doubles_bytes:
  "pack_doubles l = concat (map (\<lambda>w. map (\<lambda>j. ucast (drop_bit (8 * j) w)) [0..<8]) l)"
  by (simp add: pack_doubles_def pack_d_def [abs_def] del: upt_rec_numeral)

text \<open>
  C4: wraparound. With \<open>tail\<close> and \<open>head\<close> inside the buffer, in every poll cycle in which
  \<open>tail\<close> plus the occupancy passes the capacity, what the cycle sends when the occupancy
  exceeds the threshold is the four bytes of the occupancy, least significant first, and
  then, eight bytes each and least significant byte first, the samples
  \<open>data[tail], ..., data[buffer_size - 1]\<close> followed by \<open>data[0], ..., data[head - 1]\<close>.
  These are as many samples as the occupancy, and the \<open>k\<close>-th of them is the one at
  \<open>(tail + k) mod buffer_size\<close>: none is left out and none sent twice at the seam.
  Otherwise the cycle sends nothing.
\<close>

theorem poll_cycle_wraparound:
  assumes "0 \<le> tail fw" "tail fw < buffer_size" "0 \<le> head" "head < buffer_size"
    and "buffer_size < tail fw + (head - tail fw) mod buffer_size"
    and "buffer_size \<le> 2 ^ 32" and "send_fault conn = None"
  shows "poll_cycle dumps buffer_size sample_rate number_of_channels data head fw conn =
       (if int_half (sample_rate * number_of_channels) < (head - tail fw) mod buffer_size
        then (Inr (fw\<lparr>samples := samples fw + (head - tail fw) mod buffer_size, tail := head\<rparr>),
              conn\<lparr>sent := sent conn @
                 [word_of_int ((head - tail fw) mod buffer_size),
                  word_of_int ((head - tail fw) mod buffer_size div 256),
                  word_of_int ((head - tail fw) mod buffer_size div 65536),
                  word_of_int ((head - tail fw) mod buffer_size div 16777216)] @
                 concat (map (\<lambda>w. map (\<lambda>j. ucast (drop_bit (8 * j) w)) [0..<8])
                   (map data [tail fw..buffer_size - 1] @ map data [0..head - 1]))\<rparr>)
        else (Inr fw, conn)) \<and>
     map data [tail fw..buffer_size - 1] @ map data [0..head - 1]
       = map (\<lambda>k. data ((tail fw + int k) mod buffer_size))
           [0..<nat ((head - tail fw) mod buffer_size)]"
proof -
  let ?occ = "(head - tail fw) mod buffer_size"
  have lt: "head < tail fw"
  proof (rule ccontr)
    assume "\<not> head < tail fw"
    then have "?occ = head - tail fw"
      using assms(1,4) by (simp add: mod_pos_pos_trivial)
    then show False using assms(4,5) by simp
  qed
  have occ: "?occ = buffer_size - tail fw + head"
    by (rule wrap_occupancy [OF assms(3) lt assms(2)])
  have occ_lt: "0 \<le> buffer_size - tail fw + head" "buffer_size - tail fw + head < 2 ^ 32"
    using assms(2,3,6) lt by simp_all
  have snd: "send_msg dumps (PInt (buffer_size - tail fw + head)) conn
        = (Inr 0, conn\<lparr>sent := sent conn @
             [word_of_int (buffer_size - tail fw + head),
              word_of_int ((buffer_size - tail fw + head) div 256),
              word_of_int ((buffer_size - tail fw + head) div 65536),
              word_of_int ((buffer_size - tail fw + head) div 16777216)]\<rparr>)"
    using occ_lt assms(7)
    by (simp add: send_msg_def then_do_def lift_def pack_I_def sendall_def)
  have ring: "map data [tail fw..buffer_size - 1] @ map data [0..head - 1]
       = map (\<lambda>k. data ((tail fw + int k) mod buffer_size))
           [0..<nat (buffer_size - tail fw + head)]"
    by (rule ring_order [OF assms(3) lt assms(2)])
  have run: "poll_cycle dumps buffer_size sample_rate number_of_channels data head fw conn =
       (if int_half (sample_rate * number_of_channels) < buffer_size - tail fw + head
        then (Inr (fw\<lparr>samples := samples fw + (buffer_size - tail fw + head), tail := head\<rparr>),
              conn\<lparr>sent := sent conn @
                 [word_of_int (buffer_size - tail fw + head),
                  word_of_int ((buffer_size - tail fw + head) div 256),
                  word_of_int ((buffer_size - tail fw + head) div 65536),
                  word_of_int ((buffer_size - tail fw + head) div 16777216)] @
                 concat (map (\<lambda>w. map (\<lambda>j. ucast (drop_bit (8 * j) w)) [0..<8])
                   (map data [tail fw..buffer_size - 1] @ map data [0..head - 1]))\<rparr>)
        else (Inr fw, conn))"
    using lt snd
    by (simp add: poll_cycle_def Let_def then_do_def sendall_def assms(7)
          pack_doubles_bytes ptr_slice_def del: upt_rec_numeral)
  show ?thesis
    unfolding occ using run ring by simp
qed

text \<open>Runs of it. A ring of 8 samples holding \<open>0, 1, ..., 7\<close>, \<open>tail = 6\<close>, \<open>head = 2\<close>:
  the count 4 and the samples 6, 7, 0, 1 go out. At 1000 Hz on 4 channels (capacity
  39360), \<open>tail = 39000\<close>, \<open>head = 2000\<close>: 2360 samples, of which the 360th is the last
  of the buffer and the next one its first.\<close>

theorem poll_cycle_wraparound_witness:
  "poll_cycle no_json_dumps 8 2 2 ramp 2 \<lparr>tail = 6, samples = 0\<rparr> fresh =
     (Inr \<lparr>tail = 2, samples = 4\<rparr>,
      fresh\<lparr>sent :=
        [4, 0, 0, 0,
         6, 0, 0, 0, 0, 0, 0, 0,
         7, 0, 0, 0, 0, 0, 0, 0,
         0, 0, 0, 0, 0, 0, 0, 0,
         1, 0, 0, 0, 0, 0, 0, 0]\<rparr>) \<and>
   (map ramp [39000..39359] @ map ramp [0..1999]) ! 359 = 39359 \<and>
   (map ramp [39000..39359] @ map ramp [0..1999]) ! 360 = 0 \<and>
   length (map ramp [39000..39359] @ map ramp [0..1999]) = 2360"
proof -
  have small:
    "poll_cycle no_json_dumps 8 2 2 ramp 2 \<lparr>tail = 6, samples = 0\<rparr> fresh =
       (Inr \<lparr>tail = 2, samples = 4\<rparr>,
        fresh\<lparr>sent :=
          [4, 0, 0, 0,
           6, 0, 0, 0, 0, 0, 0, 0,
           7, 0, 0, 0, 0, 0, 0, 0,
           0, 0, 0, 0, 0, 0, 0, 0,
           1, 0, 0, 0, 0, 0, 0, 0]\<rparr>)"
    using poll_cycle_wraparound
      [of "\<lparr>tail = 6, samples = 0\<rparr>" 8 2 fresh no_json_dumps 2 2 ramp]
    by (simp add: fresh_def int_half_def ramp_def upt_rec upto.simps)
  have "map ramp [39000..39359] @ map ramp [0..1999]
          = map (\<lambda>k. ramp ((39000 + int k) mod 39360)) [0..<2360]"
    using poll_cycle_wraparound
      [of "\<lparr>tail = 39000, samples = 0\<rparr>" 39360 2000 fresh no_json_dumps 1000 4 ramp]
    by (simp add: fresh_def del: upto_rec_numeral upt_rec_numeral)
  then have seam:
    "(map ramp [39000..39359] @ map ramp [0..1999]) ! 359 = 39359 \<and>
     (map ramp [39000..39359] @ map ramp [0..1999]) ! 360 = 0 \<and>
     length (map ramp [39000..39359] @ map ramp [0..1999]) = 2360"
    by (simp add: ramp_def del: upto_rec_numeral upt_rec_numeral)
  show ?thesis
    using small seam by (rule conjI)
qed

section \<open>The command dispatcher\<close>

text \<open>
  C8: \<open>start\<close> while no board is selected. Whenever the loop reads a command frame that
  decodes and lowers to \<open>start\<close> and \<open>board_selected\<close> is false, the pass ends with the
  loop going on and every local variable as it was: no configuration is read or built,
  no thread is started, the stop event is not touched, no board is selected; and nothing
  has been written to the client.
\<close>

theorem start_while_idle:
  assumes "\<not> board_selected s"
    and "get_msg (json_loads ev) ''str'' c = (Inr (PBytes b), c')"
    and "decode_utf8 b = Inr text" and "lower text = str ''start''"
  shows "handle_client_step ev s c = (Continue, s, c') \<and> sent c' = sent c"
proof -
  have "b \<noteq> []" using assms(3,4) by (auto simp: str_def lower_def)
  then show ?thesis
    using assms get_msg_sent [OF assms(2)]
    by (simp add: handle_client_step_def dispatch_def cmd_start_def str_def)
qed

text \<open>A run of it: the frame of \<open>'START'\<close> reaches a handler that has just begun.\<close>

theorem start_while_idle_witness:
  "handle_client_step quiet_env new_session
      (fresh\<lparr>inbuf := [[5, 0, 0, 0, 0x53, 0x54, 0x41, 0x52, 0x54]]\<rparr>)
     = (Continue, new_session, fresh\<lparr>inbuf := [[]]\<rparr>) \<and>
   thread new_session = None \<and> started new_session = [] \<and> \<not> stop_event new_session"
proof -
  have 1: "\<not> board_selected new_session"
    by (simp add: new_session_def)
  have 2: "get_msg (json_loads quiet_env) ''str''
             (fresh\<lparr>inbuf := [[5, 0, 0, 0, 0x53, 0x54, 0x41, 0x52, 0x54]]\<rparr>)
           = (Inr (PBytes [0x53, 0x54, 0x41, 0x52, 0x54]), fresh\<lparr>inbuf := [[]]\<rparr>)"
    by (simp add: get_msg_def then_do_def lift_def recv_def fresh_def)
  have 3: "decode_utf8 [0x53, 0x54, 0x41, 0x52, 0x54] = Inr [0x53, 0x54, 0x41, 0x52, 0x54]"
    by (simp add: continuation_count_def lead_bits_def well_formed_cp_def)
  have 4: "lower [0x53, 0x54, 0x41, 0x52, 0x54] = str ''start''"
    by (simp add: lower_def lower_cp_def str_def)
  show ?thesis
    using start_while_idle [OF 1 2 3 4] by (simp add: new_session_def)
qed

text \<open>
  A command frame whose length is zero, read in one piece. When the next four bytes the
  handler reads are zero and one \<open>recv\<close> returns all four, \<open>get_msg\<close> returns \<open>b''\<close>, the
  loop is left by \<open>break\<close> and the connection is closed: the handler returns, its
  variables are as they were, nothing has been written, and whatever the client sent
  after the four bytes is left unread.
\<close>

lemma empty_frame_in_one_read:
  assumes "dropWhile (\<lambda>p. p = []) (inbuf c) = (0 # 0 # 0 # 0 # rest) # later"
  shows "handle_client_loop (Suc n) ev s c = Some (None, s, close (c\<lparr>inbuf := rest # later\<rparr>))"
  using assms
  by (simp add: handle_client_step_def get_msg_def then_do_def lift_def recv_def)

text \<open>A run of it: an empty frame followed by the frame of \<open>'list'\<close>.\<close>

lemma empty_frame_in_one_read_run:
  "handle_client_loop (Suc 0) quiet_env new_session
      (fresh\<lparr>inbuf := [[0, 0, 0, 0, 4, 0, 0, 0, 0x6C, 0x69, 0x73, 0x74]]\<rparr>)
     = Some (None, new_session,
         fresh\<lparr>inbuf := [[4, 0, 0, 0, 0x6C, 0x69, 0x73, 0x74]], is_closed := True\<rparr>)"
  using empty_frame_in_one_read
    [of "fresh\<lparr>inbuf := [[0, 0, 0, 0, 4, 0, 0, 0, 0x6C, 0x69, 0x73, 0x74]]\<rparr>"
        "[4, 0, 0, 0, 0x6C, 0x69, 0x73, 0x74]" "[]" 0 quiet_env new_session]
  by (simp add: close_def fresh_def)

text \<open>
  C10 (an empty command frame ends the session and closes the connection), at an empty
  frame that arrives in two pieces, \<open>00 00\<close> and \<open>00 00\<close>. The one \<open>recv(4)\<close> of
  \<open>get_msg\<close> returns the first two bytes, \<open>struct.unpack\<close> raises \<open>struct.error\<close>, neither
  \<open>except\<close> clause of the loop takes it, and the handler thread ends with the exception:
  \<open>conn.close()\<close> is not reached and the last two bytes stay unread.
\<close>

theorem split_empty_frame_ends_thread:
  "handle_client_loop (Suc n) quiet_env new_session (fresh\<lparr>inbuf := [[0, 0], [0, 0]]\<rparr>)
     = Some (Some StructError, new_session, fresh\<lparr>inbuf := [[], [0, 0]]\<rparr>) \<and>
   \<not> is_closed (fresh\<lparr>inbuf := [[], [0, 0]]\<rparr>)"
  by (simp add: handle_client_step_def get_msg_def then_do_def lift_def recv_def
      on_exception_def fresh_def)

section \<open>Connection admission\<close>

text \<open>
  C6, as the code has it. The accept loop refuses a connection when more than one thread
  besides the main thread is alive, and those threads are handlers and forwarders alike.
  So in every reachable state at most two handler threads are alive; a connection
  accepted while two or more threads besides the main one are alive is closed at once,
  and one accepted while at most one is alive, a lone handler included, gets a handler
  of its own.
\<close>

theorem at_most_two_handlers:
  assumes "reachable sv"
  shows "handlers sv \<le> 2 \<and>
         accept sv = (if 1 < handlers sv + forwarders sv then sv\<lparr>refused := refused sv + 1\<rparr>
                      else sv\<lparr>handlers := handlers sv + 1\<rparr>)"
proof -
  have "handlers sv \<le> 2"
    using assms
    by (induction rule: reachable.induct)
       (auto simp: listening_def accept_def active_count_def Let_def)
  then show ?thesis
    by (simp add: accept_def active_count_def)
qed

text \<open>A run of it: the state with one handler is reachable, and the next connection is
  handed to a second handler.\<close>

theorem at_most_two_handlers_witness:
  "reachable (accept listening) \<and> handlers (accept listening) \<le> 2 \<and>
   accept (accept listening) = (accept listening)\<lparr>handlers := 2\<rparr>"
proof -
  have r: "reachable (accept listening)"
    by (intro reachable.on_accept reachable.at_listen)
  show ?thesis
    using r at_most_two_handlers [OF r]
    by (simp add: listening_def accept_def active_count_def)
qed

text \<open>C6 as stated fails: after two connections two handler threads are alive, and the
  second connection was not closed.\<close>

theorem second_connection_admitted:
  "reachable (accept (accept listening)) \<and> handlers (accept listening) = 1 \<and>
   handlers (accept (accept listening)) = 2 \<and> refused (accept (accept listening)) = 0"
proof -
  have "reachable (accept (accept listening))"
    by (intro reachable.on_accept reachable.at_listen)
  then show ?thesis
    by (simp add: listening_def accept_def active_count_def)
qed

section \<open>The consumer\<close>

text \<open>
  C9: \<open>stop_server\<close>. Provided the receiver thread ends, so that \<open>self.thread.join()\<close>
  comes back, \<open>stop_server\<close> returns, what it returns is \<open>'idle'\<close>, and \<open>self.running\<close> is
  false afterwards: whatever the manager's state, whether the \<open>'stop'\<close> frame was sent
  or the write raised \<open>TimeoutError\<close>, \<open>ConnectionResetError\<close> or anything else, and
  whatever the receiver thread did to the manager meanwhile.
\<close>

theorem stop_server_returns_idle:
  assumes "\<And>x. join x \<noteq> None"
  shows "\<exists>m'. stop_server dumps join m = Some (Inr (PStr (str ''idle'')), m') \<and>
               \<not> self_running m'"
proof (cases "stop_server_try dumps join m")
  case None
  then show ?thesis
    by (simp add: assms stop_server_try_def Let_def
        split: prod.splits sum.splits option.splits if_splits)
next
  case (Some a)
  then show ?thesis by (cases a) (simp add: stop_server_def finally_return_def)
qed

text \<open>Runs of it: the path on which \<open>return 0\<close> is reached, the path through
  \<open>except TimeoutError\<close> and the path through \<open>except ConnectionResetError\<close>.\<close>

theorem stop_server_returns_idle_witness:
  "(\<exists>m'. stop_server no_json_dumps Some running_manager
            = Some (Inr (PStr (str ''idle'')), m') \<and> \<not> self_running m') \<and>
   stop_server_try no_json_dumps Some running_manager
     = Some (Inr (PInt 0),
         running_manager\<lparr>self_socket := Some (fresh\<lparr>sent := [4, 0, 0, 0, 0x73, 0x74, 0x6F, 0x70]\<rparr>),
                          self_stop_event := False\<rparr>) \<and>
   (\<exists>m'. stop_server no_json_dumps Some
            (running_manager\<lparr>self_socket := Some (fresh\<lparr>send_fault := Some TimeoutError\<rparr>)\<rparr>)
            = Some (Inr (PStr (str ''idle'')), m') \<and> \<not> self_running m') \<and>
   (\<exists>m'. stop_server no_json_dumps Some
            (running_manager\<lparr>self_socket := Some (fresh\<lparr>send_fault := Some ConnectionResetError\<rparr>)\<rparr>)
            = Some (Inr (PStr (str ''idle'')), m') \<and> \<not> self_running m')"
proof -
  have j: "\<And>x :: manager. Some x \<noteq> None" by simp
  have t: "stop_server_try no_json_dumps Some running_manager
     = Some (Inr (PInt 0),
         running_manager\<lparr>self_socket := Some (fresh\<lparr>sent := [4, 0, 0, 0, 0x73, 0x74, 0x6F, 0x70]\<rparr>),
                          self_stop_event := False\<rparr>)"
    by (simp add: stop_server_try_def manager_send_msg_def running_manager_def send_msg_def
        then_do_def lift_def pack_I_def sendall_def fresh_def str_def encode_cp_def)
  show ?thesis
    using stop_server_returns_idle [of Some no_json_dumps, OF j] t by blast
qed

section \<open>The stream receiver\<close>

text \<open>A pass that meets the read timeout ends the thread.\<close>

lemma timeout_ends_receiver:
  assumes "self_stop_event m" "self_socket m = Some c"
    and "receive_block n loads c = Some (Inl TimeoutError, c')"
  shows "read_server_scans (Suc n) loads m
           = Some (TimedOutExit, m\<lparr>self_socket := Some c', self_new_data := False\<rparr>)"
  using assms by simp

lemma receive_block_nothing_pending:
  assumes "dropWhile (\<lambda>p. p = []) (inbuf c) = []" "at_end c = TimedOut"
  shows "receive_block n loads c = Some (Inl TimeoutError, c\<lparr>inbuf := []\<rparr>)"
  by (simp add: assms receive_block_def get_int_def get_msg_def then_do_def recv_def)

lemma receiver_run:
  "read_server_scans (Suc (Suc (Suc 0))) no_json_loads streaming_manager =
     Some (TimedOutExit,
       streaming_manager\<lparr>self_socket := Some (fresh\<lparr>inbuf := []\<rparr>),
         self_data_list := [unpack_d [0, 0, 0, 0, 0, 0, 0xF0, 0x3F]],
         self_new_data := False\<rparr>)"
  by (simp add: streaming_manager_def running_manager_def receive_block_def get_int_def
      get_msg_def then_do_def lift_def recv_def fresh_def unpack_doubles_def Let_def)

text \<open>
  C7, as the code has it. When the receiver thread ends through \<open>except TimeoutError\<close>,
  \<open>data_list\<close> is the last block that was received whole (the one it held at the start,
  if none was), \<open>new_data\<close> is false, and \<open>self.running\<close>, the stop event and the thread
  handle are as they were: the handler clears \<open>new_data\<close> and no other flag.
\<close>

theorem receiver_exit_on_timeout:
  assumes "read_server_scans n loads m = Some (TimedOutExit, m')"
    and "self_socket m = Some c"
  shows "self_data_list m' = last (self_data_list m # blocks_received n loads c) \<and>
         \<not> self_new_data m' \<and>
         self_running m' = self_running m \<and>
         self_stop_event m' = self_stop_event m \<and>
         self_thread m' = self_thread m"
  using assms
proof (induction n arbitrary: m c)
  case 0
  then show ?case by simp
next
  case (Suc n)
  show ?case
  proof (cases "receive_block n loads c")
    case None
    then show ?thesis using Suc.prems by (simp split: if_splits)
  next
    case (Some r)
    obtain res c' where r: "r = (res, c')" by (cases r)
    show ?thesis
    proof (cases res)
      case (Inl e)
      then show ?thesis
        using Suc.prems Some r by (auto split: if_splits exn.splits)
    next
      case (Inr block)
      let ?m1 = "m\<lparr>self_socket := Some c', self_data_list := block, self_new_data := True\<rparr>"
      have run: "read_server_scans n loads ?m1 = Some (TimedOutExit, m')"
        using Suc.prems Some r Inr by (simp split: if_splits)
      have "self_socket ?m1 = Some c'" by simp
      from Suc.IH [OF run this] show ?thesis
        using Some r Inr by simp
    qed
  qed
qed

text \<open>A run of it: one block of one sample arrives, then the server falls silent.\<close>

theorem receiver_exit_on_timeout_witness:
  "read_server_scans (Suc (Suc (Suc 0))) no_json_loads streaming_manager =
     Some (TimedOutExit,
       streaming_manager\<lparr>self_socket := Some (fresh\<lparr>inbuf := []\<rparr>),
         self_data_list := [unpack_d [0, 0, 0, 0, 0, 0, 0xF0, 0x3F]],
         self_new_data := False\<rparr>) \<and>
   last (self_data_list streaming_manager #
         blocks_received (Suc (Suc (Suc 0))) no_json_loads
           (fresh\<lparr>inbuf := [[1, 0, 0, 0, 0, 0, 0, 0, 0, 0, 0xF0, 0x3F]]\<rparr>))
     = [unpack_d [0, 0, 0, 0, 0, 0, 0xF0, 0x3F]] \<and>
   self_running streaming_manager \<and> self_stop_event streaming_manager"
proof -
  have s: "self_socket streaming_manager
             = Some (fresh\<lparr>inbuf := [[1, 0, 0, 0, 0, 0, 0, 0, 0, 0, 0xF0, 0x3F]]\<rparr>)"
    by (simp add: streaming_manager_def)
  show ?thesis
    using receiver_exit_on_timeout [OF receiver_run s] receiver_run
    by (simp add: streaming_manager_def running_manager_def)
qed

text \<open>C7 as stated fails: after the exit through \<open>except TimeoutError\<close> the running flag
  and the stop event are still set.\<close>

theorem receiver_timeout_leaves_running_set:
  "\<exists>m'. read_server_scans (Suc (Suc (Suc 0))) no_json_loads streaming_manager
           = Some (TimedOutExit, m') \<and>
         self_running m' \<and> self_stop_event m'"
  using receiver_run by (simp add: streaming_manager_def running_manager_def)

end
